theory Spec2Isabelle
  imports Main
begin

section \<open>Python values and exceptions\<close>

text \<open>
  The exceptions that the calls made in \<^verbatim>\<open>main.py\<close> raise. All of them are subclasses
  of Python's \<^verbatim>\<open>Exception\<close>. \<^verbatim>\<open>UnicodeDecodeError\<close> is a subclass of \<^verbatim>\<open>ValueError\<close>,
  \<^verbatim>\<open>FileNotFoundError\<close> a subclass of \<^verbatim>\<open>OSError\<close> (of which \<^verbatim>\<open>IOError\<close> is an alias).
  \<^verbatim>\<open>KeyboardInterrupt\<close> and \<^verbatim>\<open>SystemExit\<close>, which are not subclasses of \<^verbatim>\<open>Exception\<close>,
  are raised by signals and by \<^verbatim>\<open>sys.exit\<close>, not by a call of the functions modelled
  here, and are left out.
\<close>

datatype exn =
    ValueError | TypeError | OverflowError | UnknownTimeZoneError | AttributeError
  | FileNotFoundError | OSError | UnicodeDecodeError | OtherException

definition is_ValueError :: "exn \<Rightarrow> bool" where
  "is_ValueError e = (e = ValueError \<or> e = UnicodeDecodeError)"

definition is_OSError :: "exn \<Rightarrow> bool" where
  "is_OSError e = (e = OSError \<or> e = FileNotFoundError)"

definition is_Exception :: "exn \<Rightarrow> bool" where
  "is_Exception e = True"

text \<open>
  A value handed to \<^verbatim>\<open>normalize_timestamp\<close> as its timestamp: a \<^verbatim>\<open>str\<close>, or an object
  of another type (EXIF values may be bytes, integers or tuples).
\<close>

datatype pyval = Str string | NonStr

section \<open>Characters\<close>

text \<open>
  Strings are lists of 8-bit characters (the Latin-1 range of Python's code points).
  In this range \<^verbatim>\<open>str.isspace\<close> and the regular expression class \<^verbatim>\<open>\s\<close> hold of the
  same twelve characters, and \<^verbatim>\<open>\d\<close> holds of the ten ASCII digits.
\<close>

definition whitespace :: string where
  "whitespace =
     [CHR 0x09, CHR 0x0A, CHR 0x0B, CHR 0x0C, CHR 0x0D, CHR 0x1C, CHR 0x1D, CHR 0x1E,
      CHR 0x1F, CHR 0x20, CHR 0x85, CHR 0xA0]"

definition isspace :: "char \<Rightarrow> bool" where
  "isspace c = (c \<in> set whitespace)"

definition digits :: string where
  "digits = ''0123456789''"

definition digit_val :: "char \<Rightarrow> int" where
  "digit_val c = int (length (takeWhile (\<lambda>d. d \<noteq> c) digits))"

text \<open>\<^verbatim>\<open>int(s)\<close> on a capture of the regular expression: leading blanks are skipped.\<close>

definition py_int :: "string \<Rightarrow> int" where
  "py_int s = foldl (\<lambda>a c. 10 * a + digit_val c) 0 (dropWhile isspace s)"

section \<open>The calendar of Python's datetime module\<close>

record datetime =
  year :: int
  month :: int
  day :: int
  hour :: int
  minute :: int
  second :: int

definition MINYEAR :: int where "MINYEAR = 1"
definition MAXYEAR :: int where "MAXYEAR = 9999"
definition MAXORDINAL :: int where "MAXORDINAL = 3652059"

definition DAYS_IN_MONTH :: "int list" where
  "DAYS_IN_MONTH = [-1, 31, 28, 31, 30, 31, 30, 31, 31, 30, 31, 30, 31]"

definition DAYS_BEFORE_MONTH :: "int list" where
  "DAYS_BEFORE_MONTH = [-1, 0, 31, 59, 90, 120, 151, 181, 212, 243, 273, 304, 334]"

definition is_leap :: "int \<Rightarrow> bool" where
  "is_leap y = (y mod 4 = 0 \<and> (y mod 100 \<noteq> 0 \<or> y mod 400 = 0))"

definition days_before_year :: "int \<Rightarrow> int" where
  "days_before_year yr = (let y = yr - 1 in y * 365 + y div 4 - y div 100 + y div 400)"

definition days_in_month :: "int \<Rightarrow> int \<Rightarrow> int" where
  "days_in_month y m = (if m = 2 \<and> is_leap y then 29 else DAYS_IN_MONTH ! nat m)"

definition days_before_month :: "int \<Rightarrow> int \<Rightarrow> int" where
  "days_before_month y m =
     DAYS_BEFORE_MONTH ! nat m + (if m > 2 \<and> is_leap y then 1 else 0)"

definition ymd2ord :: "int \<Rightarrow> int \<Rightarrow> int \<Rightarrow> int" where
  "ymd2ord y m d = days_before_year y + days_before_month y m + d"

definition DI400Y :: int where "DI400Y = 146097"
definition DI100Y :: int where "DI100Y = 36524"
definition DI4Y :: int where "DI4Y = 1461"

definition ord2ymd :: "int \<Rightarrow> int \<times> int \<times> int" where
  "ord2ymd n0 =
     (let n = n0 - 1;
          n400 = n div DI400Y; n = n mod DI400Y;
          yr = n400 * 400 + 1;
          n100 = n div DI100Y; n = n mod DI100Y;
          n4 = n div DI4Y; n = n mod DI4Y;
          n1 = n div 365; n = n mod 365;
          yr = yr + n100 * 100 + n4 * 4 + n1
      in if n1 = 4 \<or> n100 = 4 then (yr - 1, 12, 31)
         else
           let leapyear = (n1 = 3 \<and> (n4 \<noteq> 24 \<or> n100 = 3));
               mo = (n + 50) div 32;
               preceding = DAYS_BEFORE_MONTH ! nat mo + (if mo > 2 \<and> leapyear then 1 else 0)
           in if preceding > n
              then let mo = mo - 1;
                       preceding = preceding -
                         (DAYS_IN_MONTH ! nat mo + (if mo = 2 \<and> leapyear then 1 else 0))
                   in (yr, mo, n - preceding + 1)
              else (yr, mo, n - preceding + 1))"

text \<open>
  The constructor \<^verbatim>\<open>datetime(year, month, day, hour, minute, second)\<close> with its range
  checks (\<^verbatim>\<open>_check_date_fields\<close>, \<^verbatim>\<open>_check_time_fields\<close>).
\<close>

definition mk_datetime :: "int \<Rightarrow> int \<Rightarrow> int \<Rightarrow> int \<Rightarrow> int \<Rightarrow> int \<Rightarrow> exn + datetime" where
  "mk_datetime y mo d h mi s =
     (if \<not> (MINYEAR \<le> y \<and> y \<le> MAXYEAR) then Inl ValueError
      else if \<not> (1 \<le> mo \<and> mo \<le> 12) then Inl ValueError
      else if \<not> (1 \<le> d \<and> d \<le> days_in_month y mo) then Inl ValueError
      else if \<not> (0 \<le> h \<and> h \<le> 23) then Inl ValueError
      else if \<not> (0 \<le> mi \<and> mi \<le> 59) then Inl ValueError
      else if \<not> (0 \<le> s \<and> s \<le> 59) then Inl ValueError
      else Inr \<lparr>year = y, month = mo, day = d, hour = h, minute = mi, second = s\<rparr>)"

definition toordinal :: "datetime \<Rightarrow> int" where
  "toordinal dt = ymd2ord (year dt) (month dt) (day dt)"

text \<open>
  \<^verbatim>\<open>datetime.__add__\<close> with a \<^verbatim>\<open>timedelta\<close> of \<open>delta\<close> seconds: the sum is normalised
  to days and seconds, and a day outside \<open>1..MAXORDINAL\<close> raises \<^verbatim>\<open>OverflowError\<close>.
\<close>

definition dt_add :: "datetime \<Rightarrow> int \<Rightarrow> exn + datetime" where
  "dt_add dt delta =
     (let total = toordinal dt * 86400 + hour dt * 3600 + minute dt * 60 + second dt + delta;
          days = total div 86400; secs = total mod 86400;
          h = secs div 3600; rem = secs mod 3600;
          mi = rem div 60; s = rem mod 60
      in if 0 < days \<and> days \<le> MAXORDINAL
         then (case ord2ymd days of (y, mo, d) \<Rightarrow>
                 Inr \<lparr>year = y, month = mo, day = d, hour = h, minute = mi, second = s\<rparr>)
         else Inl OverflowError)"

section \<open>strptime\<close>

text \<open>
  \<^verbatim>\<open>datetime.strptime\<close> as CPython's \<^verbatim>\<open>_strptime\<close> implements it, for the directives
  that \<^verbatim>\<open>main.py\<close> uses. The format is turned into a regular expression: a directive
  becomes a group of alternatives, a run of whitespace becomes \<^verbatim>\<open>\s+\<close>, any other
  character stands for itself. \<^verbatim>\<open>re.match\<close> returns the first match in backtracking
  order, anchored at the start; text left over after it is an error.
\<close>

datatype directive = DY | Dm | Dd | DH | DM | DS

datatype item = Lit char | Spaces | Dir directive

definition directive_of :: "char \<Rightarrow> directive option" where
  "directive_of c =
     (if c = CHR ''Y'' then Some DY else if c = CHR ''m'' then Some Dm
      else if c = CHR ''d'' then Some Dd else if c = CHR ''H'' then Some DH
      else if c = CHR ''M'' then Some DM else if c = CHR ''S'' then Some DS
      else None)"

text \<open>
  Each alternative is a list of character sets, one per position:
  \<^verbatim>\<open>%d\<close> is \<^verbatim>\<open>3[0-1]|[1-2]\d|0[1-9]|[1-9]| [1-9]\<close>, and so on.
\<close>

fun alts :: "directive \<Rightarrow> string list list" where
  "alts DY = [[digits, digits, digits, digits]]"
| "alts Dm = [[''1'', ''012''], [''0'', ''123456789''], [''123456789'']]"
| "alts Dd = [[''3'', ''01''], [''12'', digits], [''0'', ''123456789''], [''123456789''],
              ['' '', ''123456789'']]"
| "alts DH = [[''2'', ''0123''], [''01'', digits], [digits]]"
| "alts DM = [[''012345'', digits], [digits]]"
| "alts DS = [[''6'', ''01''], [''012345'', digits], [digits]]"

fun pattern :: "string \<Rightarrow> exn + item list" where
  "pattern [] = Inr []"
| "pattern [c] =
     (if c = CHR ''%'' then Inl ValueError
      else if isspace c then Inr [Spaces] else Inr [Lit c])"
| "pattern (c # d # cs) =
     (if c = CHR ''%'' then
        (case directive_of d of
           None \<Rightarrow> Inl ValueError
         | Some dir \<Rightarrow> (case pattern cs of Inl e \<Rightarrow> Inl e | Inr its \<Rightarrow> Inr (Dir dir # its)))
      else if isspace c \<and> isspace d then pattern (d # cs)
      else (case pattern (d # cs) of
              Inl e \<Rightarrow> Inl e
            | Inr its \<Rightarrow> Inr ((if isspace c then Spaces else Lit c) # its)))"

fun fits :: "string list \<Rightarrow> string \<Rightarrow> bool" where
  "fits [] s = True"
| "fits (cs # a) [] = False"
| "fits (cs # a) (x # xs) = (x \<in> set cs \<and> fits a xs)"

fun first_some :: "('a \<Rightarrow> 'b option) \<Rightarrow> 'a list \<Rightarrow> 'b option" where
  "first_some f [] = None"
| "first_some f (x # xs) = (case f x of Some y \<Rightarrow> Some y | None \<Rightarrow> first_some f xs)"

type_synonym captures = "(directive \<times> string) list"

fun match_item ::
  "item \<Rightarrow> (string \<Rightarrow> (captures \<times> string) option) \<Rightarrow> string \<Rightarrow> (captures \<times> string) option"
where
  "match_item (Lit c) k s =
     (case s of [] \<Rightarrow> None | x # xs \<Rightarrow> if x = c then k xs else None)"
| "match_item Spaces k s =
     first_some (\<lambda>n. k (drop n s)) (rev [1 ..< Suc (length (takeWhile isspace s))])"
| "match_item (Dir d) k s =
     first_some
       (\<lambda>a. if fits a s
            then (case k (drop (length a) s) of
                    None \<Rightarrow> None
                  | Some (caps, r) \<Rightarrow> Some ((d, take (length a) s) # caps, r))
            else None)
       (alts d)"

primrec rmatch :: "item list \<Rightarrow> string \<Rightarrow> (captures \<times> string) option" where
  "rmatch [] = (\<lambda>s. Some ([], s))"
| "rmatch (i # its) = match_item i (rmatch its)"

definition field :: "captures \<Rightarrow> directive \<Rightarrow> int \<Rightarrow> int" where
  "field found d dflt = (case map_of found d of None \<Rightarrow> dflt | Some s \<Rightarrow> py_int s)"

definition strptime :: "pyval \<Rightarrow> string \<Rightarrow> exn + datetime" where
  "strptime data_string format =
     (case data_string of
        NonStr \<Rightarrow> Inl TypeError
      | Str s \<Rightarrow>
          (case pattern format of
             Inl e \<Rightarrow> Inl e
           | Inr its \<Rightarrow>
               (case rmatch its s of
                  None \<Rightarrow> Inl ValueError
                | Some (found, rest) \<Rightarrow>
                    if rest \<noteq> [] then Inl ValueError
                    else mk_datetime (field found DY 1900) (field found Dm 1) (field found Dd 1)
                           (field found DH 0) (field found DM 0) (field found DS 0))))"

text \<open>The characters that a match of an item can consume.\<close>

fun item_chars :: "item \<Rightarrow> char set" where
  "item_chars (Lit c) = {c}"
| "item_chars Spaces = set whitespace"
| "item_chars (Dir d) = (\<Union>a \<in> set (alts d). \<Union>cs \<in> set a. set cs)"

section \<open>strftime\<close>

text \<open>
  \<^verbatim>\<open>strftime("%Y:%m:%d %H:%M:%S")\<close>. CPython hands the format to the C library:
  month, day, hour, minute and second are zero-padded to two digits, and \<^verbatim>\<open>%Y\<close> is the
  year in decimal with no padding (glibc), so that a year below 1000 has fewer than four
  digits.
\<close>

definition digit_char :: "nat \<Rightarrow> char" where
  "digit_char n = digits ! (n mod 10)"

fun dec :: "nat \<Rightarrow> string" where
  "dec n = (if n < 10 then [digit_char n] else dec (n div 10) @ [digit_char n])"

declare dec.simps [simp del]

definition zfill :: "nat \<Rightarrow> string \<Rightarrow> string" where
  "zfill w s = replicate (w - length s) (CHR ''0'') @ s"

definition pad2 :: "int \<Rightarrow> string" where
  "pad2 n = zfill 2 (dec (nat n))"

definition strftime :: "datetime \<Rightarrow> string" where
  "strftime dt =
     dec (nat (year dt)) @ '':'' @ pad2 (month dt) @ '':'' @ pad2 (day dt) @ '' '' @
     pad2 (hour dt) @ '':'' @ pad2 (minute dt) @ '':'' @ pad2 (second dt)"


section \<open>str.splitlines, str.split and str.replace\<close>

definition linebreaks :: string where
  "linebreaks =
     [CHR 0x0A, CHR 0x0B, CHR 0x0C, CHR 0x0D, CHR 0x1C, CHR 0x1D, CHR 0x1E, CHR 0x85]"

fun splitlines_from :: "string \<Rightarrow> string \<Rightarrow> string list" where
  "splitlines_from cur [] = (if cur = [] then [] else [cur])"
| "splitlines_from cur [c] = (if c \<in> set linebreaks then [cur] else [cur @ [c]])"
| "splitlines_from cur (c # d # cs) =
     (if c = CHR 0x0D \<and> d = CHR 0x0A then cur # splitlines_from [] cs
      else if c \<in> set linebreaks then cur # splitlines_from [] (d # cs)
      else splitlines_from (cur @ [c]) (d # cs))"

definition str_splitlines :: "string \<Rightarrow> string list" where
  "str_splitlines s = splitlines_from [] s"

fun split_from :: "string \<Rightarrow> string \<Rightarrow> string list" where
  "split_from cur [] = (if cur = [] then [] else [cur])"
| "split_from cur (c # cs) =
     (if isspace c then (if cur = [] then split_from [] cs else cur # split_from [] cs)
      else split_from (cur @ [c]) cs)"

definition str_split :: "string \<Rightarrow> string list" where
  "str_split s = split_from [] s"

fun str_replace :: "string \<Rightarrow> string \<Rightarrow> string \<Rightarrow> string" where
  "str_replace [] old new = (if old = [] then new else [])"
| "str_replace (c # cs) old new =
     (if old = [] then new @ c # str_replace cs old new
      else if take (length old) (c # cs) = old
        then new @ str_replace (drop (length old) (c # cs)) old new
      else c # str_replace cs old new)"

section \<open>Time zones\<close>

text \<open>
  The time zone database of \<^verbatim>\<open>pytz\<close> is a parameter: a name resolves to a zone or
  is unknown. A zone gives the offset from UTC in seconds that \<^verbatim>\<open>localize\<close> attaches to a
  naive local date-time (or the exception it raises), whether the \<^verbatim>\<open>tzinfo\<close> that
  \<^verbatim>\<open>localize\<close> attaches is the zone object itself (so it is for UTC and for zones of
  one fixed offset; a zone with transitions attaches one object per period), and the
  offset that \<^verbatim>\<open>fromutc\<close> adds to a naive UTC date-time.
\<close>

record zone =
  localize_offset :: "datetime \<Rightarrow> exn + int"
  localize_self :: "datetime \<Rightarrow> bool"
  fromutc_offset :: "datetime \<Rightarrow> int"

type_synonym tzdb = "string \<Rightarrow> zone option"

text \<open>
  \<^verbatim>\<open>pytz.timezone\<close> keeps one object per zone and returns it at every call. The zone
  is looked up under its name with \<^verbatim>\<open>_plus_\<close> and \<^verbatim>\<open>_minus_\<close> replaced by the signs and
  without regard to case, so two names give the same object when they agree up to
  that.
\<close>

definition str_lower :: "string \<Rightarrow> string" where
  "str_lower s =
     map (\<lambda>c. case map_of (zip ''ABCDEFGHIJKLMNOPQRSTUVWXYZ'' ''abcdefghijklmnopqrstuvwxyz'') c of
                None \<Rightarrow> c | Some l \<Rightarrow> l) s"

definition unmunge_zone :: "string \<Rightarrow> string" where
  "unmunge_zone zone = str_replace (str_replace zone ''_plus_'' ''+'') ''_minus_'' ''-''"

definition cache_key :: "string \<Rightarrow> string" where
  "cache_key zone = str_lower (unmunge_zone zone)"

text \<open>A zone object: its key in the cache, which is its identity, and what it computes.\<close>

type_synonym tzinfo = "string \<times> zone"

definition timezone :: "tzdb \<Rightarrow> string \<Rightarrow> exn + tzinfo" where
  "timezone db name =
     (case db name of None \<Rightarrow> Inl UnknownTimeZoneError | Some z \<Rightarrow> Inr (cache_key name, z))"

text \<open>
  An aware date-time: the local fields, the offset of its \<^verbatim>\<open>tzinfo\<close>, and the key of
  the zone object when the \<^verbatim>\<open>tzinfo\<close> is that object.
\<close>

record aware =
  naive :: datetime
  utcoffset :: int
  tzinfo_key :: "string option"

definition localize :: "tzinfo \<Rightarrow> datetime \<Rightarrow> exn + aware" where
  "localize tz dt =
     (case localize_offset (snd tz) dt of
        Inl e \<Rightarrow> Inl e
      | Inr off \<Rightarrow>
          Inr \<lparr>naive = dt, utcoffset = off,
               tzinfo_key = (if localize_self (snd tz) dt then Some (fst tz) else None)\<rparr>)"

text \<open>
  \<^verbatim>\<open>astimezone\<close>: conversion to the date-time's own \<^verbatim>\<open>tzinfo\<close> object returns the
  date-time as it is. Otherwise the offset is subtracted to reach UTC, then the target
  zone's \<^verbatim>\<open>fromutc\<close> adds its own; either sum may leave the range of datetime.
\<close>

definition astimezone :: "aware \<Rightarrow> tzinfo \<Rightarrow> exn + datetime" where
  "astimezone ldt tz =
     (if tzinfo_key ldt = Some (fst tz) then Inr (naive ldt)
      else (case dt_add (naive ldt) (- utcoffset ldt) of
              Inl e \<Rightarrow> Inl e
            | Inr utc \<Rightarrow> dt_add utc (fromutc_offset (snd tz) utc)))"

section \<open>Logging\<close>

datatype level = INFO | WARNING | ERROR

datatype tagname = Name string | Id nat

datatype message =
    CouldNotParse pyval
  | InvalidTimezone exn
  | ErrorNormalizing exn
  | NoExifData string
  | ProcessingTag tagname pyval
  | NormalizedTag tagname pyval string string
  | FailedToNormalize tagname pyval
  | UpdatedExif string
  | DryRunExif string "(nat \<times> string) list"
  | NoDateTimeExif string
  | FileNotFound string
  | ErrorOpening string exn
  | UnexpectedError string exn
  | NormalizedText string string string
  | NormalizedFile string
  | DryRunText string "(string \<times> string) list"
  | NoTimestamps string
  | DecodeError exn
  | ErrorProcessingText exn

type_synonym bytes = string

text \<open>What a run does that can be observed: a log record, or a write to a file.\<close>

datatype event = Log level message | Write string bytes

section \<open>normalize\_timestamp\<close>

definition formats_to_try :: "string list" where
  "formats_to_try =
     [''%Y:%m:%d %H:%M:%S'', ''%Y-%m-%d %H:%M:%S'', ''%Y/%m/%d %H:%M:%S'',
      ''%m/%d/%Y %H:%M:%S'', ''%d/%m/%Y %H:%M:%S'']"

text \<open>
  The loop over the formats: the first format that parses ends it; a \<^verbatim>\<open>ValueError\<close>
  moves on to the next format; any other exception leaves the loop.
\<close>

fun try_formats :: "pyval \<Rightarrow> string list \<Rightarrow> exn + datetime option" where
  "try_formats timestamp [] = Inr None"
| "try_formats timestamp (fmt # fmts) =
     (case strptime timestamp fmt of
        Inr dt_object \<Rightarrow> Inr (Some dt_object)
      | Inl e \<Rightarrow> if is_ValueError e then try_formats timestamp fmts else Inl e)"

text \<open>The body of the outer \<^verbatim>\<open>try\<close>, with the record it logs before returning None.\<close>

definition normalize_body ::
  "tzdb \<Rightarrow> pyval \<Rightarrow> string \<Rightarrow> string \<Rightarrow> (exn + string option) \<times> event list" where
  "normalize_body db timestamp source_timezone target_timezone =
     (case try_formats timestamp formats_to_try of
        Inl e \<Rightarrow> (Inl e, [])
      | Inr None \<Rightarrow> (Inr None, [Log ERROR (CouldNotParse timestamp)])
      | Inr (Some dt_object) \<Rightarrow>
          (case timezone db source_timezone of
             Inl e \<Rightarrow> (Inl e, [])
           | Inr source_tz \<Rightarrow>
               (case localize source_tz dt_object of
                  Inl e \<Rightarrow> (Inl e, [])
                | Inr localized_dt \<Rightarrow>
                    (case timezone db target_timezone of
                       Inl e \<Rightarrow> (Inl e, [])
                     | Inr target_tz \<Rightarrow>
                         (case astimezone localized_dt target_tz of
                            Inl e \<Rightarrow> (Inl e, [])
                          | Inr utc_dt \<Rightarrow> (Inr (Some (strftime utc_dt)), []))))))"

text \<open>
  The function with its two handlers: \<^verbatim>\<open>UnknownTimeZoneError\<close> first, then
  \<^verbatim>\<open>Exception\<close>; an exception that neither handler matches would reach the caller.
\<close>

definition normalize_timestamp ::
  "tzdb \<Rightarrow> pyval \<Rightarrow> string \<Rightarrow> string \<Rightarrow> (exn + string option) \<times> event list" where
  "normalize_timestamp db timestamp source_timezone target_timezone =
     (case normalize_body db timestamp source_timezone target_timezone of
        (Inr r, evs) \<Rightarrow> (Inr r, evs)
      | (Inl e, evs) \<Rightarrow>
          if e = UnknownTimeZoneError then (Inr None, evs @ [Log ERROR (InvalidTimezone e)])
          else if is_Exception e then (Inr None, evs @ [Log ERROR (ErrorNormalizing e)])
          else (Inl e, evs))"

text \<open>
  The test \<^verbatim>\<open>if normalized_timestamp:\<close> holds of a string that is not empty, and fails
  on None and on the empty string.
\<close>

definition if_truthy :: "string option \<Rightarrow> string option" where
  "if_truthy r = (case r of None \<Rightarrow> None | Some s \<Rightarrow> if s = [] then None else Some s)"

text \<open>
  A string matches a format as a whole when the first match of the format's regular
  expression consumes all of it.
\<close>

definition whole_match :: "string \<Rightarrow> string \<Rightarrow> bool" where
  "whole_match s format =
     (case pattern format of
        Inl e \<Rightarrow> False
      | Inr its \<Rightarrow> (case rmatch its s of None \<Rightarrow> False | Some (found, rest) \<Rightarrow> rest = []))"


section \<open>Files and the libraries that read and write them\<close>

text \<open>
  A file system maps a path to the bytes of the file. What Pillow and chardet do with
  these bytes is not code of \<^verbatim>\<open>main.py\<close>; the libraries are parameters of the model:
  \<^item> \<open>zones\<close>: the time zone database of pytz;
  \<^item> \<open>image_open\<close>: \<^verbatim>\<open>Image.open\<close> followed by \<^verbatim>\<open>_getexif\<close>, giving the tags (or None)
    and the pixel data, or raising;
  \<^item> \<open>exif_to_bytes\<close>: the expression
    \<^verbatim>\<open>Image.ExifTags.ExifTag.string_to_bytes(Image.ExifTags.ExifTag.dict_to_bytes(exif_data))\<close>;
  \<^item> \<open>image_save\<close>: \<^verbatim>\<open>img.save(file_path, exif=new_exif)\<close>, giving the bytes it leaves in
    the file (None when it does not touch the file) and the exception it raises, if any;
  \<^item> \<open>detect\<close>: \<^verbatim>\<open>chardet.detect(...)['encoding']\<close>;
  \<^item> \<open>decode\<close>, \<open>encode\<close>: reading and writing in text mode with that encoding.
\<close>

type_synonym fs = "string \<Rightarrow> bytes option"

type_synonym exif = "(nat \<times> pyval) list"

record image =
  exif_data :: "exif option"
  pixels :: bytes

record libs =
  zones :: tzdb
  image_open :: "bytes \<Rightarrow> exn + image"
  exif_to_bytes :: "exif \<Rightarrow> exn + bytes"
  image_save :: "image \<Rightarrow> bytes \<Rightarrow> bytes option \<times> exn option"
  detect :: "bytes \<Rightarrow> string option"
  decode :: "string option \<Rightarrow> bytes \<Rightarrow> exn + string"
  encode :: "string option \<Rightarrow> string \<Rightarrow> exn + bytes"

text \<open>
  No release of Pillow defines an attribute \<^verbatim>\<open>ExifTag\<close> in \<^verbatim>\<open>PIL.ExifTags\<close> (the module
  has \<^verbatim>\<open>TAGS\<close>, \<^verbatim>\<open>GPSTAGS\<close> and the enumerations \<^verbatim>\<open>Base\<close>, \<^verbatim>\<open>GPS\<close>, \<^verbatim>\<open>Interop\<close>, \<^verbatim>\<open>IFD\<close>,
  \<^verbatim>\<open>LightSource\<close>), so with Pillow the expression raises \<^verbatim>\<open>AttributeError\<close>.
\<close>

definition pillow_exif_to_bytes :: "exif \<Rightarrow> exn + bytes" where
  "pillow_exif_to_bytes tags = Inl AttributeError"

text \<open>
  A Python dict as the list of its items in insertion order; \<^verbatim>\<open>d[k] = v\<close> replaces the
  value of a key that is present and appends a key that is not.
\<close>

fun dict_set :: "('k \<times> 'v) list \<Rightarrow> 'k \<Rightarrow> 'v \<Rightarrow> ('k \<times> 'v) list" where
  "dict_set [] k v = [(k, v)]"
| "dict_set ((k', v') # d) k v =
     (if k' = k then (k, v) # d else (k', v') # dict_set d k v)"

text \<open>
  \<^verbatim>\<open>ExifTags.TAGS\<close>: the entries of the date-time tags and a few of the others; the
  entries left out give other names to other tags.
\<close>

definition TAGS :: "nat \<Rightarrow> string option" where
  "TAGS = map_of
     [(271, ''Make''), (272, ''Model''), (274, ''Orientation''), (305, ''Software''),
      (306, ''DateTime''), (36867, ''DateTimeOriginal''), (36868, ''DateTimeDigitized''),
      (37510, ''UserComment'')]"

section \<open>process\_image\_file\<close>

text \<open>
  The loop over the tags. \<open>updated_exif\<close> is the dict of staged values; the result is
  that dict, or the exception that left the loop, with the events of the loop.
\<close>

fun scan_tags ::
  "tzdb \<Rightarrow> string \<Rightarrow> bool \<Rightarrow> exif \<Rightarrow> (nat \<times> string) list \<Rightarrow>
   (exn + (nat \<times> string) list) \<times> event list" where
  "scan_tags db target_timezone verbose [] updated_exif = (Inr updated_exif, [])"
| "scan_tags db target_timezone verbose ((tag_id, val) # rest) updated_exif =
     (let tag = (case TAGS tag_id of Some name \<Rightarrow> Name name | None \<Rightarrow> Id tag_id);
          trace = (if verbose then [Log INFO (ProcessingTag tag val)] else [])
      in if tag = Name ''DateTime'' \<or> tag = Name ''DateTimeOriginal'' \<or>
            tag = Name ''DateTimeDigitized''
         then
           (case normalize_timestamp db val ''UTC'' target_timezone of
              (Inl e, evs) \<Rightarrow> (Inl e, trace @ evs)
            | (Inr r, evs) \<Rightarrow>
                (case if_truthy r of
                   Some normalized_timestamp \<Rightarrow>
                     (case scan_tags db target_timezone verbose rest
                             (dict_set updated_exif tag_id normalized_timestamp) of
                        (res, evs') \<Rightarrow>
                          (res, trace @ evs @
                             [Log INFO (NormalizedTag tag val normalized_timestamp
                                          target_timezone)] @ evs'))
                 | None \<Rightarrow>
                     (case scan_tags db target_timezone verbose rest updated_exif of
                        (res, evs') \<Rightarrow>
                          (res, trace @ evs @ [Log WARNING (FailedToNormalize tag val)] @ evs'))))
         else
           (case scan_tags db target_timezone verbose rest updated_exif of
              (res, evs') \<Rightarrow> (res, trace @ evs')))"

text \<open>The loop \<^verbatim>\<open>for tag_id, new_value in updated_exif.items(): exif_data[tag_id] = new_value\<close>.\<close>

fun apply_updates :: "exif \<Rightarrow> (nat \<times> string) list \<Rightarrow> exif" where
  "apply_updates tags [] = tags"
| "apply_updates tags ((tag_id, new_value) # rest) =
     apply_updates (dict_set tags tag_id (Str new_value)) rest"

text \<open>
  What follows the loop: the write-back, the dry-run record or the no-op record.
  The result is the exception raised (if any), the file system and the events.
\<close>

definition image_finish ::
  "libs \<Rightarrow> fs \<Rightarrow> string \<Rightarrow> bool \<Rightarrow> image \<Rightarrow> exif \<Rightarrow> (nat \<times> string) list \<Rightarrow>
   (exn + unit) \<times> fs \<times> event list" where
  "image_finish L files file_path dry_run img exif updated_exif =
     (if updated_exif \<noteq> [] then
        if \<not> dry_run then
          (case exif_to_bytes L (apply_updates exif updated_exif) of
             Inl e \<Rightarrow> (Inl e, files, [])
           | Inr new_exif \<Rightarrow>
               (case image_save L img new_exif of
                  (None, None) \<Rightarrow> (Inr (), files, [Log INFO (UpdatedExif file_path)])
                | (None, Some e) \<Rightarrow> (Inl e, files, [])
                | (Some written, None) \<Rightarrow>
                    (Inr (), files(file_path \<mapsto> written),
                     [Write file_path written, Log INFO (UpdatedExif file_path)])
                | (Some written, Some e) \<Rightarrow>
                    (Inl e, files(file_path \<mapsto> written), [Write file_path written])))
        else (Inr (), files, [Log INFO (DryRunExif file_path updated_exif)])
      else (Inr (), files, [Log INFO (NoDateTimeExif file_path)]))"

definition image_try ::
  "libs \<Rightarrow> fs \<Rightarrow> string \<Rightarrow> string \<Rightarrow> bool \<Rightarrow> bool \<Rightarrow> (exn + unit) \<times> fs \<times> event list" where
  "image_try L files file_path target_timezone dry_run verbose =
     (case files file_path of
        None \<Rightarrow> (Inl FileNotFoundError, files, [])
      | Some raw \<Rightarrow>
          (case image_open L raw of
             Inl e \<Rightarrow> (Inl e, files, [])
           | Inr img \<Rightarrow>
               (case exif_data img of
                  None \<Rightarrow> (Inr (), files, [Log WARNING (NoExifData file_path)])
                | Some exif \<Rightarrow>
                    (case scan_tags (zones L) target_timezone verbose exif [] of
                       (Inl e, evs) \<Rightarrow> (Inl e, files, evs)
                     | (Inr updated_exif, evs) \<Rightarrow>
                         (case image_finish L files file_path dry_run img exif updated_exif of
                            (res, files', evs') \<Rightarrow> (res, files', evs @ evs'))))))"

text \<open>
  The function with its handlers, in their order: \<^verbatim>\<open>FileNotFoundError\<close>,
  \<^verbatim>\<open>(IOError, OSError)\<close>, \<^verbatim>\<open>Exception\<close>. It returns the file system and the events.
\<close>

definition process_image_file ::
  "libs \<Rightarrow> fs \<Rightarrow> string \<Rightarrow> string \<Rightarrow> bool \<Rightarrow> bool \<Rightarrow> fs \<times> event list" where
  "process_image_file L files file_path target_timezone dry_run verbose =
     (case image_try L files file_path target_timezone dry_run verbose of
        (Inr u, files', evs) \<Rightarrow> (files', evs)
      | (Inl e, files', evs) \<Rightarrow>
          if e = FileNotFoundError then (files', evs @ [Log ERROR (FileNotFound file_path)])
          else if is_OSError e then (files', evs @ [Log ERROR (ErrorOpening file_path e)])
          else (files', evs @ [Log ERROR (UnexpectedError file_path e)]))"

section \<open>process\_text\_file\<close>

text \<open>The words that parse as \<^verbatim>\<open>%Y-%m-%d\<close>, in their order.\<close>

fun find_candidates :: "string list \<Rightarrow> exn + string list" where
  "find_candidates [] = Inr []"
| "find_candidates (word # ws) =
     (case strptime (Str word) ''%Y-%m-%d'' of
        Inr d \<Rightarrow>
          (case find_candidates ws of
             Inl e \<Rightarrow> Inl e
           | Inr potential_timestamps \<Rightarrow> Inr (word # potential_timestamps))
      | Inl e \<Rightarrow> if is_ValueError e then find_candidates ws else Inl e)"

text \<open>The loop over the candidates, with the content and the replacements so far.\<close>

fun normalize_all ::
  "tzdb \<Rightarrow> string \<Rightarrow> string list \<Rightarrow> string \<Rightarrow> (string \<times> string) list \<Rightarrow>
   (exn + string \<times> (string \<times> string) list) \<times> event list" where
  "normalize_all db target_timezone [] normalized_content replacements =
     (Inr (normalized_content, replacements), [])"
| "normalize_all db target_timezone (timestamp # rest) normalized_content replacements =
     (case normalize_timestamp db (Str timestamp) ''UTC'' target_timezone of
        (Inl e, evs) \<Rightarrow> (Inl e, evs)
      | (Inr r, evs) \<Rightarrow>
          (case if_truthy r of
             Some normalized_timestamp \<Rightarrow>
               (case normalize_all db target_timezone rest
                       (str_replace normalized_content timestamp normalized_timestamp)
                       (dict_set replacements timestamp normalized_timestamp) of
                  (res, evs') \<Rightarrow>
                    (res, evs @
                       [Log INFO (NormalizedText timestamp normalized_timestamp
                                    target_timezone)] @ evs'))
           | None \<Rightarrow>
               (case normalize_all db target_timezone rest normalized_content replacements of
                  (res, evs') \<Rightarrow> (res, evs @ evs'))))"

text \<open>
  What follows the loop. Opening the file for writing empties it, so a failure to
  encode the content leaves the file empty.
\<close>

definition text_finish ::
  "libs \<Rightarrow> fs \<Rightarrow> string \<Rightarrow> bool \<Rightarrow> string option \<Rightarrow> string \<Rightarrow> (string \<times> string) list \<Rightarrow>
   (exn + unit) \<times> fs \<times> event list" where
  "text_finish L files file_path dry_run encoding normalized_content replacements =
     (if replacements \<noteq> [] then
        if \<not> dry_run then
          (case encode L encoding normalized_content of
             Inl e \<Rightarrow> (Inl e, files(file_path \<mapsto> []), [Write file_path []])
           | Inr out \<Rightarrow>
               (Inr (), files(file_path \<mapsto> out),
                [Write file_path out, Log INFO (NormalizedFile file_path)]))
        else (Inr (), files, [Log INFO (DryRunText file_path replacements)])
      else (Inr (), files, [Log INFO (NoTimestamps file_path)]))"

definition text_try ::
  "libs \<Rightarrow> fs \<Rightarrow> string \<Rightarrow> string \<Rightarrow> bool \<Rightarrow> bool \<Rightarrow> (exn + unit) \<times> fs \<times> event list" where
  "text_try L files file_path target_timezone dry_run verbose =
     (case files file_path of
        None \<Rightarrow> (Inl FileNotFoundError, files, [])
      | Some raw \<Rightarrow>
          (let encoding = detect L raw in
           case decode L encoding raw of
             Inl e \<Rightarrow> (Inl e, files, [])
           | Inr content \<Rightarrow>
               (case find_candidates (concat (map str_split (str_splitlines content))) of
                  Inl e \<Rightarrow> (Inl e, files, [])
                | Inr potential_timestamps \<Rightarrow>
                    (case normalize_all (zones L) target_timezone potential_timestamps
                            content [] of
                       (Inl e, evs) \<Rightarrow> (Inl e, files, evs)
                     | (Inr (normalized_content, replacements), evs) \<Rightarrow>
                         (case text_finish L files file_path dry_run encoding
                                 normalized_content replacements of
                            (res, files', evs') \<Rightarrow> (res, files', evs @ evs'))))))"

text \<open>
  The function with its handlers, in their order: \<^verbatim>\<open>FileNotFoundError\<close>,
  \<^verbatim>\<open>UnicodeDecodeError\<close>, \<^verbatim>\<open>Exception\<close>.
\<close>

definition process_text_file ::
  "libs \<Rightarrow> fs \<Rightarrow> string \<Rightarrow> string \<Rightarrow> bool \<Rightarrow> bool \<Rightarrow> fs \<times> event list" where
  "process_text_file L files file_path target_timezone dry_run verbose =
     (case text_try L files file_path target_timezone dry_run verbose of
        (Inr u, files', evs) \<Rightarrow> (files', evs)
      | (Inl e, files', evs) \<Rightarrow>
          if e = FileNotFoundError then (files', evs @ [Log ERROR (FileNotFound file_path)])
          else if e = UnicodeDecodeError then (files', evs @ [Log ERROR (DecodeError e)])
          else (files', evs @ [Log ERROR (ErrorProcessingText e)]))"

section \<open>Observations on a run\<close>

text \<open>The writes of a run, and the events that follow its first write.\<close>

fun writes :: "event list \<Rightarrow> (string \<times> bytes) list" where
  "writes [] = []"
| "writes (Write p b # evs) = (p, b) # writes evs"
| "writes (Log l m # evs) = writes evs"

fun after_write :: "event list \<Rightarrow> event list" where
  "after_write [] = []"
| "after_write (Write p b # evs) = evs"
| "after_write (Log l m # evs) = after_write evs"

text \<open>The file system after the writes of a run, applied in their order.\<close>

fun apply_writes :: "fs \<Rightarrow> (string \<times> bytes) list \<Rightarrow> fs" where
  "apply_writes files [] = files"
| "apply_writes files ((p, b) # ws) = apply_writes (files(p \<mapsto> b)) ws"

text \<open>The records that the evaluation of a candidate leaves in the log.\<close>

fun is_evaluation :: "event \<Rightarrow> bool" where
  "is_evaluation (Log l (CouldNotParse v)) = True"
| "is_evaluation (Log l (InvalidTimezone e)) = True"
| "is_evaluation (Log l (ErrorNormalizing e)) = True"
| "is_evaluation (Log l (ProcessingTag t v)) = True"
| "is_evaluation (Log l (NormalizedTag t v n z)) = True"
| "is_evaluation (Log l (FailedToNormalize t v)) = True"
| "is_evaluation (Log l (NormalizedText t n z)) = True"
| "is_evaluation ev = False"

text \<open>
  A run on the file at \<open>p\<close> that writes at most once, to \<open>p\<close> only, after every
  evaluation of a candidate, and changes the file system by its writes only.
\<close>

definition written_once :: "string \<Rightarrow> fs \<Rightarrow> fs \<times> event list \<Rightarrow> bool" where
  "written_once p files run =
     (length (writes (snd run)) \<le> 1 \<and>
      filter (\<lambda>w. fst w \<noteq> p) (writes (snd run)) = [] \<and>
      filter is_evaluation (after_write (snd run)) = [] \<and>
      fst run = apply_writes files (writes (snd run)))"

section \<open>An excerpt of the time zone database\<close>

text \<open>
  Two zones of the IANA database, for evaluating the functions at concrete inputs: UTC,
  and America/New\_York with the rules in force during 2023 (daylight saving time from
  12 March 07:00 UTC to 5 November 06:00 UTC).
\<close>

definition dt_key :: "datetime \<Rightarrow> int" where
  "dt_key dt = toordinal dt * 86400 + hour dt * 3600 + minute dt * 60 + second dt"

definition utc_zone :: zone where
  "utc_zone =
     \<lparr>localize_offset = (\<lambda>dt. Inr 0), localize_self = (\<lambda>dt. True),
      fromutc_offset = (\<lambda>dt. 0)\<rparr>"

definition new_york_2023 :: zone where
  "new_york_2023 =
     \<lparr>localize_offset = (\<lambda>dt.
        Inr (if dt_key \<lparr>year = 2023, month = 3, day = 12, hour = 3, minute = 0, second = 0\<rparr>
                  \<le> dt_key dt \<and>
                dt_key dt
                  < dt_key \<lparr>year = 2023, month = 11, day = 5, hour = 1, minute = 0, second = 0\<rparr>
             then - 14400 else - 18000)),
      localize_self = (\<lambda>dt. False),
      fromutc_offset = (\<lambda>dt.
        if dt_key \<lparr>year = 2023, month = 3, day = 12, hour = 7, minute = 0, second = 0\<rparr>
             \<le> dt_key dt \<and>
           dt_key dt
             < dt_key \<lparr>year = 2023, month = 11, day = 5, hour = 6, minute = 0, second = 0\<rparr>
        then - 14400 else - 18000)\<rparr>"

definition iana_2023 :: tzdb where
  "iana_2023 name =
     (if name = ''UTC'' then Some utc_zone
      else if name = ''America/New_York'' then Some new_york_2023
      else None)"

text \<open>
  Libraries for evaluating the processors at concrete inputs: the time zones above,
  Pillow's missing attribute, an image decoder that knows two files (one with a camera
  make and a date-time tag, one without metadata), and an encoding under which text is
  its own bytes.
\<close>

definition sample_image :: image where
  "sample_image =
     \<lparr>exif_data = Some [(271, Str ''Canon''), (306, Str ''2023:06:15 12:00:00'')],
      pixels = ''pixels''\<rparr>"

definition sample_libs :: libs where
  "sample_libs =
     \<lparr>zones = iana_2023,
      image_open = (\<lambda>raw.
        if raw = ''jpeg with tags'' then Inr sample_image
        else if raw = ''jpeg without tags'' then Inr \<lparr>exif_data = None, pixels = ''pixels''\<rparr>
        else Inl OSError),
      exif_to_bytes = pillow_exif_to_bytes,
      image_save = (\<lambda>img new_exif. (Some (new_exif @ pixels img), None)),
      detect = (\<lambda>raw. Some ''ascii''),
      decode = (\<lambda>encoding raw. Inr raw),
      encode = (\<lambda>encoding content. Inr content)\<rparr>"

section \<open>Lemmas on the calendar and on formatting\<close>












lemma rep1: "replicate (Suc 0) c = [c]" by simp
lemma rep2: "replicate 2 c = [c, c]" by (simp add: numeral_2_eq_2)
lemma rep3: "replicate 3 c = [c, c, c]" by (simp add: numeral_3_eq_3)








section \<open>Lemmas on matching\<close>

lemma first_some_Some: "first_some f xs = Some y \<Longrightarrow> \<exists>x \<in> set xs. f x = Some y"
  by (induction xs) (auto split: option.splits)

lemma fits_take: "fits a s \<Longrightarrow> set (take (length a) s) \<subseteq> (\<Union>cs \<in> set a. set cs)"
  by (induction a s rule: fits.induct) auto

lemma take_spaces:
  assumes "n \<le> length (takeWhile isspace s)"
  shows "set (take n s) \<subseteq> set whitespace"
proof -
  have "take n s = take n (takeWhile isspace s @ dropWhile isspace s)" by simp
  also have "\<dots> = take n (takeWhile isspace s)"
    using assms by (simp del: takeWhile_dropWhile_id)
  finally have "set (take n s) \<subseteq> set (takeWhile isspace s)"
    by (metis set_take_subset)
  moreover have "set (takeWhile isspace s) \<subseteq> set whitespace"
    using set_takeWhileD isspace_def by fastforce
  ultimately show ?thesis by blast
qed

lemma match_Lit:
  "match_item (Lit c) k s = Some r \<Longrightarrow> \<exists>xs. s = c # xs \<and> k xs = Some r"
  by (cases s) (auto split: if_splits)

lemma match_Spaces:
  assumes "match_item Spaces k s = Some r"
  shows "\<exists>n. 1 \<le> n \<and> n \<le> length (takeWhile isspace s) \<and> k (drop n s) = Some r"
proof -
  from assms have "first_some (\<lambda>n. k (drop n s))
        (rev [1 ..< Suc (length (takeWhile isspace s))]) = Some r" by simp
  from first_some_Some[OF this] show ?thesis by auto
qed

lemma match_Dir:
  assumes "match_item (Dir d) k s = Some (caps, rest)"
  shows "\<exists>a caps'. a \<in> set (alts d) \<and> fits a s \<and> k (drop (length a) s) = Some (caps', rest)"
proof -
  from assms have "first_some
       (\<lambda>a. if fits a s
            then (case k (drop (length a) s) of
                    None \<Rightarrow> None
                  | Some (caps, r) \<Rightarrow> Some ((d, take (length a) s) # caps, r))
            else None)
       (alts d) = Some (caps, rest)" by simp
  from first_some_Some[OF this] obtain a where a: "a \<in> set (alts d)"
    and r: "(if fits a s
            then (case k (drop (length a) s) of
                    None \<Rightarrow> None
                  | Some (caps, r) \<Rightarrow> Some ((d, take (length a) s) # caps, r))
            else None) = Some (caps, rest)" by blast
  from r have f: "fits a s" by (simp split: if_splits)
  with r obtain caps' where "k (drop (length a) s) = Some (caps', rest)"
    by (auto split: option.splits)
  with a f show ?thesis by blast
qed


lemma rmatch_consumed:
  "rmatch its s = Some (caps, rest) \<Longrightarrow>
   \<exists>p. s = p @ rest \<and> set p \<subseteq> (\<Union>i \<in> set its. item_chars i) \<and>
        (\<forall>c. Lit c \<in> set its \<longrightarrow> c \<in> set p)"
proof (induction its arbitrary: s caps rest)
  case Nil
  then show ?case by simp
next
  case (Cons i its)
  from Cons.prems have m: "match_item i (rmatch its) s = Some (caps, rest)" by simp
  show ?case
  proof (cases i)
    case (Lit c)
    with m obtain xs where s: "s = c # xs" and r: "rmatch its xs = Some (caps, rest)"
      using match_Lit by blast
    from Cons.IH[OF r] obtain p where p: "xs = p @ rest"
        "set p \<subseteq> (\<Union>i \<in> set its. item_chars i)"
        "\<forall>c. Lit c \<in> set its \<longrightarrow> c \<in> set p" by blast
    have "s = (c # p) @ rest" using s p(1) by simp
    moreover have "set (c # p) \<subseteq> (\<Union>i \<in> set (i # its). item_chars i)"
      using p(2) Lit by auto
    moreover have "\<forall>c'. Lit c' \<in> set (i # its) \<longrightarrow> c' \<in> set (c # p)"
      using p(3) Lit by auto
    ultimately show ?thesis by blast
  next
    case Spaces
    with m obtain n where n: "n \<le> length (takeWhile isspace s)"
      and r: "rmatch its (drop n s) = Some (caps, rest)"
      using match_Spaces by blast
    from Cons.IH[OF r] obtain p where p: "drop n s = p @ rest"
        "set p \<subseteq> (\<Union>i \<in> set its. item_chars i)"
        "\<forall>c. Lit c \<in> set its \<longrightarrow> c \<in> set p" by blast
    have "s = (take n s @ p) @ rest" using p(1) by (metis append_assoc append_take_drop_id)
    moreover have "set (take n s @ p) \<subseteq> (\<Union>i \<in> set (i # its). item_chars i)"
      using take_spaces[OF n] p(2) Spaces by auto
    moreover have "\<forall>c. Lit c \<in> set (i # its) \<longrightarrow> c \<in> set (take n s @ p)"
      using p(3) Spaces by auto
    ultimately show ?thesis by blast
  next
    case (Dir d)
    with m obtain a caps' where a: "a \<in> set (alts d)" "fits a s"
      and r: "rmatch its (drop (length a) s) = Some (caps', rest)"
      using match_Dir by blast
    from Cons.IH[OF r] obtain p where p: "drop (length a) s = p @ rest"
        "set p \<subseteq> (\<Union>i \<in> set its. item_chars i)"
        "\<forall>c. Lit c \<in> set its \<longrightarrow> c \<in> set p" by blast
    have "s = (take (length a) s @ p) @ rest"
      using p(1) by (metis append_assoc append_take_drop_id)
    moreover have "set (take (length a) s) \<subseteq> item_chars i"
      using fits_take[OF a(2)] a(1) unfolding Dir item_chars.simps by blast
    then have "set (take (length a) s @ p) \<subseteq> (\<Union>i \<in> set (i # its). item_chars i)"
      using p(2) by auto
    moreover have "\<forall>c. Lit c \<in> set (i # its) \<longrightarrow> c \<in> set (take (length a) s @ p)"
      using p(3) Dir by auto
    ultimately show ?thesis by blast
  qed
qed


subsection \<open>strptime\<close>

lemma pattern_raises: "pattern fmt = Inl e \<Longrightarrow> e = ValueError"
  by (induction fmt arbitrary: e rule: pattern.induct)
     (auto split: if_splits option.splits sum.splits)

lemma mk_datetime_raises: "mk_datetime y mo d h mi s = Inl e \<Longrightarrow> e = ValueError"
  by (auto simp: mk_datetime_def split: if_splits)

lemma strptime_Str_raises: "strptime (Str s) fmt = Inl e \<Longrightarrow> e = ValueError"
  by (auto simp: strptime_def split: sum.splits option.splits prod.splits if_splits
           dest: pattern_raises mk_datetime_raises)

lemma strptime_no_match: "\<not> whole_match s fmt \<Longrightarrow> strptime (Str s) fmt = Inl ValueError"
  by (auto simp: whole_match_def strptime_def split: sum.splits option.splits prod.splits
           dest: pattern_raises)

lemma strptime_Inr_match:
  "strptime (Str s) fmt = Inr d \<Longrightarrow> \<exists>its found. pattern fmt = Inr its \<and> rmatch its s = Some (found, [])"
  by (auto simp: strptime_def split: sum.splits option.splits prod.splits if_splits)

lemma pattern_1:
  "pattern ''%Y:%m:%d %H:%M:%S'' =
     Inr [Dir DY, Lit CHR '':'', Dir Dm, Lit CHR '':'', Dir Dd, Spaces,
          Dir DH, Lit CHR '':'', Dir DM, Lit CHR '':'', Dir DS]"
  by (simp add: isspace_def whitespace_def directive_of_def)

lemma pattern_2:
  "pattern ''%Y-%m-%d %H:%M:%S'' =
     Inr [Dir DY, Lit CHR ''-'', Dir Dm, Lit CHR ''-'', Dir Dd, Spaces,
          Dir DH, Lit CHR '':'', Dir DM, Lit CHR '':'', Dir DS]"
  by (simp add: isspace_def whitespace_def directive_of_def)

lemma pattern_3:
  "pattern ''%Y/%m/%d %H:%M:%S'' =
     Inr [Dir DY, Lit CHR ''/'', Dir Dm, Lit CHR ''/'', Dir Dd, Spaces,
          Dir DH, Lit CHR '':'', Dir DM, Lit CHR '':'', Dir DS]"
  by (simp add: isspace_def whitespace_def directive_of_def)

lemma pattern_4:
  "pattern ''%m/%d/%Y %H:%M:%S'' =
     Inr [Dir Dm, Lit CHR ''/'', Dir Dd, Lit CHR ''/'', Dir DY, Spaces,
          Dir DH, Lit CHR '':'', Dir DM, Lit CHR '':'', Dir DS]"
  by (simp add: isspace_def whitespace_def directive_of_def)

lemma pattern_5:
  "pattern ''%d/%m/%Y %H:%M:%S'' =
     Inr [Dir Dd, Lit CHR ''/'', Dir Dm, Lit CHR ''/'', Dir DY, Spaces,
          Dir DH, Lit CHR '':'', Dir DM, Lit CHR '':'', Dir DS]"
  by (simp add: isspace_def whitespace_def directive_of_def)

lemma pattern_date:
  "pattern ''%Y-%m-%d'' = Inr [Dir DY, Lit CHR ''-'', Dir Dm, Lit CHR ''-'', Dir Dd]"
  by (simp add: isspace_def whitespace_def directive_of_def)

lemma fits_Cons: "fits (cs # a) s \<longleftrightarrow> (\<exists>x xs. s = x # xs \<and> x \<in> set cs \<and> fits a xs)"
  by (cases s) auto

text \<open>A string that starts with a year and a separator has four digits in front.\<close>

lemma match_year_first:
  assumes "match_item (Dir DY) (match_item (Lit c) k) s = Some r"
  shows "\<exists>y1 y2 y3 y4 rest. s = y1 # y2 # y3 # y4 # c # rest \<and>
           y1 \<in> set digits \<and> y2 \<in> set digits \<and> y3 \<in> set digits"
  using assms by (auto simp: fits_Cons split: if_splits option.splits list.splits)

text \<open>A string that starts with a month and a slash has the slash second or third.\<close>

lemma match_month_first:
  assumes "match_item (Dir Dm) (match_item (Lit (CHR ''/'')) k) s = Some r"
  shows "(\<exists>a rest. s = a # CHR ''/'' # rest) \<or> (\<exists>a b rest. s = a # b # CHR ''/'' # rest)"
  using assms by (auto simp: fits_Cons split: if_splits option.splits list.splits)

lemma slash_not_digit: "CHR ''/'' \<notin> set digits"
  by (simp add: digits_def)

lemma month_first_excludes_year_first:
  assumes "strptime (Str s) ''%m/%d/%Y %H:%M:%S'' = Inr d4"
  shows "strptime (Str s) ''%Y:%m:%d %H:%M:%S'' = Inl ValueError"
    and "strptime (Str s) ''%Y-%m-%d %H:%M:%S'' = Inl ValueError"
    and "strptime (Str s) ''%Y/%m/%d %H:%M:%S'' = Inl ValueError"
proof -
  from strptime_Inr_match[OF assms] obtain found where
    "rmatch [Dir Dm, Lit CHR ''/'', Dir Dd, Lit CHR ''/'', Dir DY, Spaces,
             Dir DH, Lit CHR '':'', Dir DM, Lit CHR '':'', Dir DS] s = Some (found, [])"
    unfolding pattern_4 by auto
  then have "match_item (Dir Dm) (match_item (Lit (CHR ''/''))
      (rmatch [Dir Dd, Lit CHR ''/'', Dir DY, Spaces,
               Dir DH, Lit CHR '':'', Dir DM, Lit CHR '':'', Dir DS])) s = Some (found, [])"
    by simp
  from match_month_first[OF this]
  have sl: "(\<exists>a rest. s = a # CHR ''/'' # rest) \<or> (\<exists>a b rest. s = a # b # CHR ''/'' # rest)" .
  have no: "rmatch (Dir DY # Lit c # its) s = None" for c its
  proof (cases "rmatch (Dir DY # Lit c # its) s")
    case None
    then show ?thesis .
  next
    case (Some r)
    then have "match_item (Dir DY) (match_item (Lit c) (rmatch its)) s = Some r" by simp
    from match_year_first[OF this] sl slash_not_digit show ?thesis by auto
  qed
  show "strptime (Str s) ''%Y:%m:%d %H:%M:%S'' = Inl ValueError"
    unfolding strptime_def pattern_1 by (simp add: no del: rmatch.simps)
  show "strptime (Str s) ''%Y-%m-%d %H:%M:%S'' = Inl ValueError"
    unfolding strptime_def pattern_2 by (simp add: no del: rmatch.simps)
  show "strptime (Str s) ''%Y/%m/%d %H:%M:%S'' = Inl ValueError"
    unfolding strptime_def pattern_3 by (simp add: no del: rmatch.simps)
qed

lemma try_formats_all_fail:
  "\<forall>fmt \<in> set fmts. strptime ts fmt = Inl ValueError \<Longrightarrow> try_formats ts fmts = Inr None"
  by (induction fmts) (auto simp: is_ValueError_def)

text \<open>Every format of the list has a colon; a string that parses under one has it too.\<close>

lemma parsed_has_colon:
  assumes "fmt \<in> set formats_to_try" and "strptime (Str s) fmt = Inr d"
  shows "CHR '':'' \<in> set s"
proof -
  from strptime_Inr_match[OF assms(2)] obtain its found where
    p: "pattern fmt = Inr its" and r: "rmatch its s = Some (found, [])" by blast
  from assms(1) consider "fmt = ''%Y:%m:%d %H:%M:%S''" | "fmt = ''%Y-%m-%d %H:%M:%S''"
    | "fmt = ''%Y/%m/%d %H:%M:%S''" | "fmt = ''%m/%d/%Y %H:%M:%S''"
    | "fmt = ''%d/%m/%Y %H:%M:%S''"
    unfolding formats_to_try_def by auto
  then have "Lit (CHR '':'') \<in> set its"
  proof cases
    case 1
    from p[unfolded 1 pattern_1] show ?thesis by auto
  next
    case 2
    from p[unfolded 2 pattern_2] show ?thesis by auto
  next
    case 3
    from p[unfolded 3 pattern_3] show ?thesis by auto
  next
    case 4
    from p[unfolded 4 pattern_4] show ?thesis by auto
  next
    case 5
    from p[unfolded 5 pattern_5] show ?thesis by auto
  qed
  with rmatch_consumed[OF r] show ?thesis by auto
qed

text \<open>A string that parses as a date alone has digits, hyphens and blanks only.\<close>

lemma date_has_no_colon:
  assumes "strptime (Str s) ''%Y-%m-%d'' = Inr d"
  shows "CHR '':'' \<notin> set s"
proof -
  from strptime_Inr_match[OF assms] obtain found where
    r: "rmatch [Dir DY, Lit CHR ''-'', Dir Dm, Lit CHR ''-'', Dir Dd] s = Some (found, [])"
    unfolding pattern_date by auto
  from rmatch_consumed[OF r] have
    "set s \<subseteq> (\<Union>i \<in> set [Dir DY, Lit CHR ''-'', Dir Dm, Lit CHR ''-'', Dir Dd]. item_chars i)"
    by auto
  moreover have "CHR '':'' \<notin>
      (\<Union>i \<in> set [Dir DY, Lit CHR ''-'', Dir Dm, Lit CHR ''-'', Dir Dd]. item_chars i)"
    by (simp add: digits_def)
  ultimately show ?thesis by blast
qed

lemma candidate_never_parses:
  assumes "strptime (Str s) ''%Y-%m-%d'' = Inr d"
  shows "try_formats (Str s) formats_to_try = Inr None"
proof (rule try_formats_all_fail, rule ballI)
  fix fmt assume f: "fmt \<in> set formats_to_try"
  show "strptime (Str s) fmt = Inl ValueError"
  proof (cases "strptime (Str s) fmt")
    case (Inl e)
    then show ?thesis using strptime_Str_raises by blast
  next
    case (Inr d')
    with parsed_has_colon[OF f] date_has_no_colon[OF assms] show ?thesis by blast
  qed
qed

lemma candidate_not_normalized:
  assumes "strptime (Str s) ''%Y-%m-%d'' = Inr d"
  shows "normalize_timestamp db (Str s) src tgt = (Inr None, [Log ERROR (CouldNotParse (Str s))])"
  by (simp add: normalize_timestamp_def normalize_body_def candidate_never_parses[OF assms])

section \<open>Properties of normalize\_timestamp\<close>

text \<open>
  Claim C10. For every timestamp value and every pair of time zone names,
  \<^verbatim>\<open>normalize_timestamp\<close> returns (a string or None): no exception raised in its body
  reaches the caller, whatever the time zone database does.
\<close>

theorem normalize_timestamp_returns:
  "\<exists>r. fst (normalize_timestamp db timestamp source_timezone target_timezone) = Inr r"
  by (auto simp: normalize_timestamp_def is_Exception_def split: prod.splits sum.splits)

text \<open>
  Claim C5. When the source or the target time zone name is unknown to the database,
  \<^verbatim>\<open>normalize_timestamp\<close> returns None, for every timestamp.
\<close>

theorem normalize_timestamp_unknown_timezone:
  "db source_timezone = None \<or> db target_timezone = None \<Longrightarrow>
   fst (normalize_timestamp db timestamp source_timezone target_timezone) = Inr None"
  by (auto simp: normalize_timestamp_def normalize_body_def timezone_def is_Exception_def
           split: prod.splits sum.splits option.splits)

theorem normalize_timestamp_unknown_timezone_witness:
  "(iana_2023 ''UTC'' = None \<or> iana_2023 ''Mars/Phobos'' = None) \<and>
   fst (normalize_timestamp iana_2023 (Str ''2023:06:15 12:00:00'') ''UTC'' ''Mars/Phobos'')
     = Inr None \<and>
   (iana_2023 ''Mars/Phobos'' = None \<or> iana_2023 ''UTC'' = None) \<and>
   fst (normalize_timestamp iana_2023 (Str ''2023:06:15 12:00:00'') ''Mars/Phobos'' ''UTC'')
     = Inr None"
proof -
  have unknown: "iana_2023 ''Mars/Phobos'' = None"
    by (simp add: iana_2023_def)
  show ?thesis
    using unknown
      normalize_timestamp_unknown_timezone
        [of iana_2023 "''UTC''" "''Mars/Phobos''" "Str ''2023:06:15 12:00:00''"]
      normalize_timestamp_unknown_timezone
        [of iana_2023 "''Mars/Phobos''" "''UTC''" "Str ''2023:06:15 12:00:00''"]
    by simp
qed

lemma cache_key_UTC: "cache_key ''UTC'' = ''utc''"
  by (simp add: cache_key_def unmunge_zone_def str_lower_def)

lemma cache_key_New_York: "cache_key ''America/New_York'' = ''america/new_york''"
  by (simp add: cache_key_def unmunge_zone_def str_lower_def)

lemmas parse_defs = strptime_def isspace_def whitespace_def directive_of_def digits_def field_def
  py_int_def digit_val_def mk_datetime_def MINYEAR_def MAXYEAR_def days_in_month_def
  DAYS_IN_MONTH_def is_leap_def

lemmas calendar_defs = dt_add_def toordinal_def ymd2ord_def days_before_year_def
  days_before_month_def DAYS_BEFORE_MONTH_def DAYS_IN_MONTH_def is_leap_def MAXORDINAL_def
  ord2ymd_def DI400Y_def DI100Y_def DI4Y_def Let_def

lemmas format_defs = strftime_def pad2_def zfill_def dec.simps digit_char_def digits_def

lemmas zone_defs = timezone_def localize_def astimezone_def iana_2023_def utc_zone_def
  new_york_2023_def dt_key_def cache_key_UTC cache_key_New_York

lemma parse_noon:
  "try_formats (Str ''2023:06:15 12:00:00'') formats_to_try =
     Inr (Some \<lparr>year = 2023, month = 6, day = 15, hour = 12, minute = 0, second = 0\<rparr>)"
  by (simp add: formats_to_try_def parse_defs)

lemma noon_plus_0:
  "dt_add \<lparr>year = 2023, month = 6, day = 15, hour = 12, minute = 0, second = 0\<rparr> 0
   = Inr \<lparr>year = 2023, month = 6, day = 15, hour = 12, minute = 0, second = 0\<rparr>"
  by (simp add: calendar_defs)

lemma noon_minus_4h:
  "dt_add \<lparr>year = 2023, month = 6, day = 15, hour = 12, minute = 0, second = 0\<rparr> (- 14400)
   = Inr \<lparr>year = 2023, month = 6, day = 15, hour = 8, minute = 0, second = 0\<rparr>"
  by (simp add: calendar_defs)

lemma strftime_8:
  "strftime \<lparr>year = 2023, month = 6, day = 15, hour = 8, minute = 0, second = 0\<rparr>
   = ''2023:06:15 08:00:00''"
  by (simp add: format_defs)

text \<open>
  Claim C3. When the time zone database resolves UTC to a zone that attaches offset 0 to
  noon of 15 June 2023, and America/New\_York to a zone whose offset at that instant is
  minus four hours (daylight saving time, as the IANA rules have it),
  \<^verbatim>\<open>normalize_timestamp("2023:06:15 12:00:00", "UTC", "America/New_York")\<close> returns
  \<^verbatim>\<open>"2023:06:15 08:00:00"\<close> and logs nothing.
\<close>

theorem normalize_timestamp_utc_to_new_york:
  assumes "db ''UTC'' = Some utc"
    and "localize_offset utc
           \<lparr>year = 2023, month = 6, day = 15, hour = 12, minute = 0, second = 0\<rparr> = Inr 0"
    and "db ''America/New_York'' = Some ny"
    and "fromutc_offset ny
           \<lparr>year = 2023, month = 6, day = 15, hour = 12, minute = 0, second = 0\<rparr> = - 14400"
  shows "normalize_timestamp db (Str ''2023:06:15 12:00:00'') ''UTC'' ''America/New_York''
           = (Inr (Some ''2023:06:15 08:00:00''), [])"
  using assms
  by (simp add: normalize_timestamp_def normalize_body_def parse_noon timezone_def localize_def
      astimezone_def cache_key_UTC cache_key_New_York noon_plus_0 noon_minus_4h strftime_8)

theorem normalize_timestamp_utc_to_new_york_witness:
  "iana_2023 ''UTC'' = Some utc_zone \<and>
   localize_offset utc_zone
     \<lparr>year = 2023, month = 6, day = 15, hour = 12, minute = 0, second = 0\<rparr> = Inr 0 \<and>
   iana_2023 ''America/New_York'' = Some new_york_2023 \<and>
   fromutc_offset new_york_2023
     \<lparr>year = 2023, month = 6, day = 15, hour = 12, minute = 0, second = 0\<rparr> = - 14400 \<and>
   normalize_timestamp iana_2023 (Str ''2023:06:15 12:00:00'') ''UTC'' ''America/New_York''
     = (Inr (Some ''2023:06:15 08:00:00''), [])"
proof -
  have 1: "iana_2023 ''UTC'' = Some utc_zone" by (simp add: iana_2023_def)
  have 2: "localize_offset utc_zone
     \<lparr>year = 2023, month = 6, day = 15, hour = 12, minute = 0, second = 0\<rparr> = Inr 0"
    by (simp add: utc_zone_def)
  have 3: "iana_2023 ''America/New_York'' = Some new_york_2023" by (simp add: iana_2023_def)
  have 4: "fromutc_offset new_york_2023
     \<lparr>year = 2023, month = 6, day = 15, hour = 12, minute = 0, second = 0\<rparr> = - 14400"
    by (simp add: new_york_2023_def dt_key_def toordinal_def ymd2ord_def days_before_year_def
        days_before_month_def DAYS_BEFORE_MONTH_def is_leap_def Let_def)
  show ?thesis using 1 2 3 4 normalize_timestamp_utc_to_new_york[OF 1 2 3 4] by simp
qed

lemma normalize_timestamp_new_york_winter:
  "normalize_timestamp iana_2023 (Str ''2023:01:15 12:00:00'') ''UTC'' ''America/New_York''
     = (Inr (Some ''2023:01:15 07:00:00''), [])"
  by (simp add: normalize_timestamp_def normalize_body_def formats_to_try_def parse_defs
      zone_defs calendar_defs format_defs)

text \<open>
  Claim C4. The formats are tried in the order year:month:day, year-month-day,
  year/month/day, month/day/year, day/month/year, and a timestamp that parses both as
  month/day/year and as day/month/year is read as month/day/year: the loop over the
  formats ends with the date-time that the fourth format gives.
\<close>

theorem month_first_format_wins:
  assumes "strptime (Str s) ''%m/%d/%Y %H:%M:%S'' = Inr d4"
    and "strptime (Str s) ''%d/%m/%Y %H:%M:%S'' = Inr d5"
  shows "formats_to_try =
           [''%Y:%m:%d %H:%M:%S'', ''%Y-%m-%d %H:%M:%S'', ''%Y/%m/%d %H:%M:%S'',
            ''%m/%d/%Y %H:%M:%S'', ''%d/%m/%Y %H:%M:%S''] \<and>
         try_formats (Str s) formats_to_try = Inr (Some d4)"
  using month_first_excludes_year_first[OF assms(1)] assms(1)
  by (simp add: formats_to_try_def is_ValueError_def)

lemma parse_4: "strptime (Str ''03/04/2023 10:00:00'') ''%m/%d/%Y %H:%M:%S'' =
      Inr \<lparr>year = 2023, month = 3, day = 4, hour = 10, minute = 0, second = 0\<rparr>"
  by (simp add: parse_defs)

lemma parse_5: "strptime (Str ''03/04/2023 10:00:00'') ''%d/%m/%Y %H:%M:%S'' =
      Inr \<lparr>year = 2023, month = 4, day = 3, hour = 10, minute = 0, second = 0\<rparr>"
  by (simp add: parse_defs)

theorem month_first_format_wins_witness:
  "strptime (Str ''03/04/2023 10:00:00'') ''%m/%d/%Y %H:%M:%S'' =
      Inr \<lparr>year = 2023, month = 3, day = 4, hour = 10, minute = 0, second = 0\<rparr> \<and>
   strptime (Str ''03/04/2023 10:00:00'') ''%d/%m/%Y %H:%M:%S'' =
      Inr \<lparr>year = 2023, month = 4, day = 3, hour = 10, minute = 0, second = 0\<rparr> \<and>
   try_formats (Str ''03/04/2023 10:00:00'') formats_to_try =
      Inr (Some \<lparr>year = 2023, month = 3, day = 4, hour = 10, minute = 0, second = 0\<rparr>)"
  using parse_4 parse_5 month_first_format_wins[OF parse_4 parse_5] by simp


lemma try_formats_first_wins:
  assumes "i < length fmts" and "strptime ts (fmts ! i) = Inr d"
    and "\<forall>j<i. strptime ts (fmts ! j) = Inl ValueError"
  shows "try_formats ts fmts = Inr (Some d)"
  using assms
proof (induction fmts arbitrary: i)
  case Nil
  then show ?case by simp
next
  case (Cons f fmts)
  show ?case
  proof (cases i)
    case 0
    with Cons.prems show ?thesis by simp
  next
    case (Suc k)
    with Cons.prems have f: "strptime ts f = Inl ValueError" by auto
    have "try_formats ts fmts = Inr (Some d)"
    proof (rule Cons.IH[of k])
      show "k < length fmts" using Cons.prems Suc by simp
      show "strptime ts (fmts ! k) = Inr d" using Cons.prems Suc by simp
      show "\<forall>j<k. strptime ts (fmts ! j) = Inl ValueError"
        using Cons.prems(3) Suc by auto
    qed
    with f show ?thesis by (simp add: is_ValueError_def)
  qed
qed

text \<open>
  Claim C6. A string that none of the five formats matches as a whole makes
  \<^verbatim>\<open>normalize_timestamp\<close> return None, with the error record "could not parse", for every
  pair of time zone names.
\<close>

theorem normalize_timestamp_no_match:
  assumes "\<forall>fmt \<in> set formats_to_try. \<not> whole_match s fmt"
  shows "normalize_timestamp db (Str s) source_timezone target_timezone
           = (Inr None, [Log ERROR (CouldNotParse (Str s))])"
proof -
  have "try_formats (Str s) formats_to_try = Inr None"
    by (rule try_formats_all_fail) (use assms strptime_no_match in blast)
  then show ?thesis by (simp add: normalize_timestamp_def normalize_body_def)
qed

lemma no_match_1: "\<forall>fmt \<in> set formats_to_try. \<not> whole_match ''not-a-date'' fmt"
  by (simp add: formats_to_try_def whole_match_def isspace_def whitespace_def directive_of_def
      digits_def)

lemma no_match_2:
  "\<forall>fmt \<in> set formats_to_try. \<not> whole_match ''2023:06:15 12:00:00 and more'' fmt"
  by (simp add: formats_to_try_def whole_match_def isspace_def whitespace_def directive_of_def
      digits_def)

theorem normalize_timestamp_no_match_witness:
  "\<not> whole_match ''not-a-date'' ''%Y:%m:%d %H:%M:%S'' \<and>
   \<not> whole_match ''not-a-date'' ''%Y-%m-%d %H:%M:%S'' \<and>
   \<not> whole_match ''not-a-date'' ''%Y/%m/%d %H:%M:%S'' \<and>
   \<not> whole_match ''not-a-date'' ''%m/%d/%Y %H:%M:%S'' \<and>
   \<not> whole_match ''not-a-date'' ''%d/%m/%Y %H:%M:%S'' \<and>
   normalize_timestamp iana_2023 (Str ''not-a-date'') ''UTC'' ''UTC''
     = (Inr None, [Log ERROR (CouldNotParse (Str ''not-a-date''))]) \<and>
   \<not> whole_match ''2023:06:15 12:00:00 and more'' ''%Y:%m:%d %H:%M:%S'' \<and>
   normalize_timestamp iana_2023 (Str ''2023:06:15 12:00:00 and more'') ''UTC'' ''UTC''
     = (Inr None, [Log ERROR (CouldNotParse (Str ''2023:06:15 12:00:00 and more''))])"
  using no_match_1 no_match_2
    normalize_timestamp_no_match[OF no_match_1, of iana_2023 "''UTC''" "''UTC''"]
    normalize_timestamp_no_match[OF no_match_2, of iana_2023 "''UTC''" "''UTC''"]
  by (simp add: formats_to_try_def)











section \<open>Lemmas on the events of a run\<close>

lemma writes_append: "writes (a @ b) = writes a @ writes b"
  by (induction a rule: writes.induct) auto

lemma after_write_append:
  "after_write (a @ b) = (if writes a = [] then after_write b else after_write a @ b)"
  by (induction a rule: writes.induct) auto

lemma normalize_timestamp_no_writes:
  "writes (snd (normalize_timestamp db ts src tgt)) = []"
  by (auto simp: normalize_timestamp_def normalize_body_def writes_append
           split: prod.splits sum.splits option.splits)

lemma scan_tags_no_writes:
  "writes (snd (scan_tags db tz verbose exif updated_exif)) = []"
proof (induction exif arbitrary: updated_exif)
  case Nil
  then show ?case by simp
next
  case (Cons kv rest)
  obtain tag_id val where kv: "kv = (tag_id, val)" by (cases kv)
  have n: "writes (snd (normalize_timestamp db val ''UTC'' tz)) = []"
    by (rule normalize_timestamp_no_writes)
  show ?case
    unfolding kv using Cons.IH n
    by (cases verbose)
       (simp_all add: Let_def split_beta writes_append split: sum.splits option.splits)
qed

lemma normalize_all_no_writes:
  "writes (snd (normalize_all db tz ts content replacements)) = []"
proof (induction ts arbitrary: content replacements)
  case Nil
  then show ?case by simp
next
  case (Cons t ts)
  obtain nr nevs where n: "normalize_timestamp db (Str t) ''UTC'' tz = (nr, nevs)"
    by (cases "normalize_timestamp db (Str t) ''UTC'' tz")
  have wn: "writes nevs = []"
    using normalize_timestamp_no_writes[of db "Str t" "''UTC''" tz] n by simp
  show ?case
  proof (cases nr)
    case (Inl e)
    with n wn show ?thesis by simp
  next
    case (Inr v)
    show ?thesis
    proof (cases "if_truthy v")
      case None
      obtain r' evs' where rec: "normalize_all db tz ts content replacements = (r', evs')"
        by (cases "normalize_all db tz ts content replacements")
      with Cons.IH[of content replacements] have "writes evs' = []" by simp
      with n Inr None rec wn show ?thesis by (simp add: writes_append)
    next
      case (Some new)
      obtain r' evs' where rec:
        "normalize_all db tz ts (str_replace content t new) (dict_set replacements t new)
           = (r', evs')"
        by (cases "normalize_all db tz ts (str_replace content t new)
                     (dict_set replacements t new)")
      with Cons.IH[of "str_replace content t new" "dict_set replacements t new"]
      have "writes evs' = []" by simp
      with n Inr Some rec wn show ?thesis by (simp add: writes_append)
    qed
  qed
qed

lemma after_write_no_writes: "writes evs = [] \<Longrightarrow> after_write evs = []"
  by (induction evs rule: writes.induct) auto

lemma written_once_no_writes: "writes evs = [] \<Longrightarrow> written_once p files (files, evs)"
  by (simp add: written_once_def after_write_no_writes)

lemma written_once_after:
  assumes "writes evs = []" and "written_once p files (files', evs')"
  shows "written_once p files (files', evs @ evs')"
  using assms by (simp add: written_once_def writes_append after_write_append)

lemma written_once_log:
  assumes "written_once p files (files', evs)" and "\<not> is_evaluation (Log l m)"
  shows "written_once p files (files', evs @ [Log l m])"
  using assms by (simp add: written_once_def writes_append after_write_append)

lemma image_finish_written_once:
  "image_finish L files p dry_run img exif updated_exif = (res, files', evs) \<Longrightarrow>
   written_once p files (files', evs)"
  by (auto simp: image_finish_def written_once_def split: if_splits sum.splits prod.splits option.splits)

lemma text_finish_written_once:
  "text_finish L files p dry_run encoding content replacements = (res, files', evs) \<Longrightarrow>
   written_once p files (files', evs)"
  by (auto simp: text_finish_def written_once_def split: if_splits sum.splits)

lemma written_once_nothing: "written_once p files (files, [])"
  by (simp add: written_once_def)

lemma image_try_written_once:
  assumes "image_try L files p tz dry_run verbose = (res, files', evs)"
  shows "written_once p files (files', evs)"
proof (cases "files p")
  case None
  with assms show ?thesis by (auto simp: image_try_def written_once_def)
next
  case (Some raw)
  show ?thesis
  proof (cases "image_open L raw")
    case (Inl e)
    with Some assms show ?thesis by (auto simp: image_try_def written_once_def)
  next
    case (Inr img)
    show ?thesis
    proof (cases "exif_data img")
      case None
      with Some Inr assms show ?thesis by (auto simp: image_try_def written_once_def)
    next
      case (Some exif)
      obtain r evs1 where sc: "scan_tags (zones L) tz verbose exif [] = (r, evs1)"
        by (cases "scan_tags (zones L) tz verbose exif []")
      have w1: "writes evs1 = []" using scan_tags_no_writes[of "zones L" tz verbose exif "[]"] sc by simp
      show ?thesis
      proof (cases r)
        case (Inl e)
        with \<open>files p = Some raw\<close> Inr Some sc assms have "files' = files" "evs = evs1"
          by (auto simp: image_try_def)
        with w1 show ?thesis by (simp add: written_once_no_writes)
      next
        case updated: (Inr updated_exif)
        obtain res2 files2 evs2 where f:
          "image_finish L files p dry_run img exif updated_exif = (res2, files2, evs2)"
          by (cases "image_finish L files p dry_run img exif updated_exif")
        with \<open>files p = Some raw\<close> Inr Some sc updated assms
        have "files' = files2" "evs = evs1 @ evs2"
          by (auto simp: image_try_def)
        with written_once_after[OF w1 image_finish_written_once[OF f]] show ?thesis by simp
      qed
    qed
  qed
qed

lemma process_image_file_written_once:
  "written_once p files (process_image_file L files p tz dry_run verbose)"
proof -
  obtain res files' evs where t: "image_try L files p tz dry_run verbose = (res, files', evs)"
    by (cases "image_try L files p tz dry_run verbose")
  note w = image_try_written_once[OF t]
  show ?thesis
  proof (cases res)
    case (Inr u)
    with t w show ?thesis by (simp add: process_image_file_def)
  next
    case (Inl e)
    with t written_once_log[OF w] show ?thesis by (simp add: process_image_file_def)
  qed
qed

lemma text_try_written_once:
  assumes "text_try L files p tz dry_run verbose = (res, files', evs)"
  shows "written_once p files (files', evs)"
proof (cases "files p")
  case None
  with assms show ?thesis by (auto simp: text_try_def written_once_def)
next
  case (Some raw)
  show ?thesis
  proof (cases "decode L (detect L raw) raw")
    case (Inl e)
    with Some assms show ?thesis by (auto simp: text_try_def written_once_def)
  next
    case (Inr content)
    show ?thesis
    proof (cases "find_candidates (concat (map str_split (str_splitlines content)))")
      case (Inl e)
      with Some Inr assms show ?thesis by (auto simp: text_try_def written_once_def)
    next
      case cands: (Inr ts)
      obtain r evs1 where na: "normalize_all (zones L) tz ts content [] = (r, evs1)"
        by (cases "normalize_all (zones L) tz ts content []")
      have w1: "writes evs1 = []"
        using normalize_all_no_writes[of "zones L" tz ts content "[]"] na by simp
      show ?thesis
      proof (cases r)
        case (Inl e)
        with Some Inr cands na assms have "files' = files" "evs = evs1"
          by (auto simp: text_try_def)
        with w1 show ?thesis by (simp add: written_once_no_writes)
      next
        case pair: (Inr cr)
        obtain content' replacements where cr: "cr = (content', replacements)" by (cases cr)
        obtain res2 files2 evs2 where f:
          "text_finish L files p dry_run (detect L raw) content' replacements = (res2, files2, evs2)"
          by (cases "text_finish L files p dry_run (detect L raw) content' replacements")
        with Some Inr cands na pair cr assms
        have "files' = files2" "evs = evs1 @ evs2"
          by (auto simp: text_try_def)
        with written_once_after[OF w1 text_finish_written_once[OF f]] show ?thesis by simp
      qed
    qed
  qed
qed

lemma process_text_file_written_once:
  "written_once p files (process_text_file L files p tz dry_run verbose)"
proof -
  obtain res files' evs where t: "text_try L files p tz dry_run verbose = (res, files', evs)"
    by (cases "text_try L files p tz dry_run verbose")
  note w = text_try_written_once[OF t]
  show ?thesis
  proof (cases res)
    case (Inr u)
    with t w show ?thesis by (simp add: process_text_file_def)
  next
    case (Inl e)
    with t written_once_log[OF w] show ?thesis by (simp add: process_text_file_def)
  qed
qed

section \<open>Properties of the processors\<close>

text \<open>
  Claim C9. Each processor writes at most once in a run, to the file it was given and
  to no other; no record of the evaluation of a candidate follows the write; and the file
  system after the run is the file system before it with the writes of the run applied.
  This holds for every behaviour of the libraries.
\<close>

theorem processors_write_once:
  "written_once file_path files
     (process_image_file L files file_path target_timezone dry_run verbose) \<and>
   written_once file_path files
     (process_text_file L files file_path target_timezone dry_run verbose)"
  using process_image_file_written_once process_text_file_written_once by blast

lemma image_finish_dry_run:
  "image_finish L files p True img exif updated_exif =
     (Inr (), files,
      [Log INFO (if updated_exif \<noteq> [] then DryRunExif p updated_exif else NoDateTimeExif p)])"
  by (simp add: image_finish_def)

lemma text_finish_dry_run:
  "text_finish L files p True encoding content replacements =
     (Inr (), files,
      [Log INFO (if replacements \<noteq> [] then DryRunText p replacements else NoTimestamps p)])"
  by (simp add: text_finish_def)

lemma process_image_file_dry_run:
  "fst (process_image_file L files p tz True verbose) = files \<and>
   writes (snd (process_image_file L files p tz True verbose)) = []"
proof -
  have sc: "writes (snd (scan_tags (zones L) tz verbose exif [])) = []" for exif
    by (rule scan_tags_no_writes)
  show ?thesis
    using sc
    by (auto simp: process_image_file_def image_try_def image_finish_dry_run writes_append
                  split_beta
             split: option.splits sum.splits)
qed

lemma process_text_file_dry_run:
  "fst (process_text_file L files p tz True verbose) = files \<and>
   writes (snd (process_text_file L files p tz True verbose)) = []"
proof -
  have na: "writes (snd (normalize_all (zones L) tz ts content [])) = []" for ts content
    by (rule normalize_all_no_writes)
  show ?thesis
    using na
    by (auto simp: process_text_file_def text_try_def text_finish_dry_run writes_append
                  split_beta Let_def
             split: option.splits sum.splits)
qed

lemma process_image_file_dry_run_log:
  assumes "files p = Some raw" and "image_open L raw = Inr img"
    and "exif_data img = Some exif"
    and "scan_tags (zones L) tz verbose exif [] = (Inr (u # us), evs)"
  shows "process_image_file L files p tz True verbose =
           (files, evs @ [Log INFO (DryRunExif p (u # us))])"
  using assms by (simp add: process_image_file_def image_try_def image_finish_dry_run)


lemma normalize_noon_new_york:
  "normalize_timestamp iana_2023 (Str ''2023:06:15 12:00:00'') ''UTC'' ''America/New_York''
     = (Inr (Some ''2023:06:15 08:00:00''), [])"
  by (simp add: normalize_timestamp_def normalize_body_def parse_noon zone_defs
      noon_plus_0 noon_minus_4h strftime_8 toordinal_def ymd2ord_def days_before_year_def
      days_before_month_def DAYS_BEFORE_MONTH_def is_leap_def Let_def)

lemma scan_sample_tags:
  "scan_tags iana_2023 ''America/New_York'' False
     [(271, Str ''Canon''), (306, Str ''2023:06:15 12:00:00'')] []
   = (Inr [(306, ''2023:06:15 08:00:00'')],
      [Log INFO (NormalizedTag (Name ''DateTime'') (Str ''2023:06:15 12:00:00'')
                   ''2023:06:15 08:00:00'' ''America/New_York'')])"
  by (simp add: TAGS_def normalize_noon_new_york if_truthy_def)

text \<open>
  Claim C8. With the dry-run flag set neither processor writes: the file system after
  the run is the file system before it and the run has no write among its events,
  whatever the file holds and whatever the libraries do. When the image processor has
  staged values, the last record of its log is the dry-run record with all of them;
  the text processor's dry-run branch logs the replacements it is given.
\<close>

theorem dry_run_writes_nothing:
  "fst (process_image_file L files p tz True verbose) = files \<and>
   writes (snd (process_image_file L files p tz True verbose)) = [] \<and>
   fst (process_text_file L files p tz True verbose) = files \<and>
   writes (snd (process_text_file L files p tz True verbose)) = [] \<and>
   (files p = Some raw \<and> image_open L raw = Inr img \<and> exif_data img = Some exif \<and>
    scan_tags (zones L) tz verbose exif [] = (Inr (u # us), evs) \<longrightarrow>
      snd (process_image_file L files p tz True verbose)
        = evs @ [Log INFO (DryRunExif p (u # us))]) \<and>
   text_finish L files p True encoding content (r # rs)
     = (Inr (), files, [Log INFO (DryRunText p (r # rs))])"
  using process_image_file_dry_run[of L files p tz verbose]
    process_text_file_dry_run[of L files p tz verbose]
    process_image_file_dry_run_log[of files p raw L img exif tz verbose u us evs]
    text_finish_dry_run[of L files p encoding content "r # rs"]
  by simp

theorem dry_run_writes_nothing_witness:
  "[''photo.jpg'' \<mapsto> ''jpeg with tags''] ''photo.jpg'' = Some ''jpeg with tags'' \<and>
   image_open sample_libs ''jpeg with tags'' = Inr sample_image \<and>
   exif_data sample_image = Some [(271, Str ''Canon''), (306, Str ''2023:06:15 12:00:00'')] \<and>
   scan_tags (zones sample_libs) ''America/New_York'' False
     [(271, Str ''Canon''), (306, Str ''2023:06:15 12:00:00'')] []
     = (Inr [(306, ''2023:06:15 08:00:00'')],
        [Log INFO (NormalizedTag (Name ''DateTime'') (Str ''2023:06:15 12:00:00'')
                     ''2023:06:15 08:00:00'' ''America/New_York'')]) \<and>
   fst (process_image_file sample_libs [''photo.jpg'' \<mapsto> ''jpeg with tags''] ''photo.jpg''
          ''America/New_York'' True False) = [''photo.jpg'' \<mapsto> ''jpeg with tags''] \<and>
   snd (process_image_file sample_libs [''photo.jpg'' \<mapsto> ''jpeg with tags''] ''photo.jpg''
          ''America/New_York'' True False)
     = [Log INFO (NormalizedTag (Name ''DateTime'') (Str ''2023:06:15 12:00:00'')
                    ''2023:06:15 08:00:00'' ''America/New_York''),
        Log INFO (DryRunExif ''photo.jpg'' [(306, ''2023:06:15 08:00:00'')])]"
proof -
  have 1: "[''photo.jpg'' \<mapsto> ''jpeg with tags''] ''photo.jpg'' = Some ''jpeg with tags''"
    by simp
  have 2: "image_open sample_libs ''jpeg with tags'' = Inr sample_image"
    by (simp add: sample_libs_def)
  have 3: "exif_data sample_image
             = Some [(271, Str ''Canon''), (306, Str ''2023:06:15 12:00:00'')]"
    by (simp add: sample_image_def)
  have 4: "scan_tags (zones sample_libs) ''America/New_York'' False
     [(271, Str ''Canon''), (306, Str ''2023:06:15 12:00:00'')] []
     = (Inr [(306, ''2023:06:15 08:00:00'')],
        [Log INFO (NormalizedTag (Name ''DateTime'') (Str ''2023:06:15 12:00:00'')
                     ''2023:06:15 08:00:00'' ''America/New_York'')])"
    using scan_sample_tags by (simp add: sample_libs_def)
  show ?thesis
    using 1 2 3 4
      dry_run_writes_nothing[of sample_libs "[''photo.jpg'' \<mapsto> ''jpeg with tags'']"
        "''photo.jpg''" "''America/New_York''" False "''jpeg with tags''" sample_image
        "[(271, Str ''Canon''), (306, Str ''2023:06:15 12:00:00'')]"
        "(306, ''2023:06:15 08:00:00'')" "[]"
        "[Log INFO (NormalizedTag (Name ''DateTime'') (Str ''2023:06:15 12:00:00'')
                     ''2023:06:15 08:00:00'' ''America/New_York'')]"]
    by simp
qed

text \<open>
  With Pillow the expression that should encode the tags raises, so the image processor
  never writes, with or without the dry-run flag.
\<close>

lemma pillow_never_writes:
  assumes "exif_to_bytes L = pillow_exif_to_bytes"
  shows "fst (process_image_file L files p tz dry_run verbose) = files \<and>
         writes (snd (process_image_file L files p tz dry_run verbose)) = []"
proof -
  have sc: "writes (snd (scan_tags (zones L) tz verbose exif [])) = []" for exif
    by (rule scan_tags_no_writes)
  show ?thesis
    using sc assms
    by (auto simp: process_image_file_def image_try_def image_finish_def writes_append
                  split_beta pillow_exif_to_bytes_def
             split: option.splits sum.splits)
qed

text \<open>
  Had the encoding and the save succeeded, the file would hold what \<open>image_save\<close> makes
  of the tags with every staged value in place.
\<close>

lemma process_image_file_write_back:
  assumes "files p = Some raw" and "image_open L raw = Inr img"
    and "exif_data img = Some exif"
    and "scan_tags (zones L) tz verbose exif [] = (Inr (u # us), evs)"
    and "exif_to_bytes L (apply_updates exif (u # us)) = Inr new_exif"
    and "image_save L img new_exif = (Some written, None)"
  shows "process_image_file L files p tz False verbose =
           (files(p \<mapsto> written), evs @ [Write p written, Log INFO (UpdatedExif p)])"
  using assms by (simp add: process_image_file_def image_try_def image_finish_def)

lemma map_of_dict_set: "map_of (dict_set d k v) = (map_of d)(k \<mapsto> v)"
  by (induction d) auto

lemma apply_updates_other:
  "k \<notin> fst ` set updated_exif \<Longrightarrow> map_of (apply_updates exif updated_exif) k = map_of exif k"
  by (induction updated_exif arbitrary: exif) (auto simp: map_of_dict_set)

text \<open>
  Claim C1, at a file with a camera make and a date-time tag, without the dry-run flag:
  the tag is normalized and staged, the encoding of the tags raises AttributeError, the
  handler for Exception logs it, and the file is left as it was.
\<close>

theorem image_write_back_raises:
  "process_image_file sample_libs [''photo.jpg'' \<mapsto> ''jpeg with tags''] ''photo.jpg''
     ''America/New_York'' False False
   = ([''photo.jpg'' \<mapsto> ''jpeg with tags''],
      [Log INFO (NormalizedTag (Name ''DateTime'') (Str ''2023:06:15 12:00:00'')
                   ''2023:06:15 08:00:00'' ''America/New_York''),
       Log ERROR (UnexpectedError ''photo.jpg'' AttributeError)])"
  by (simp add: process_image_file_def image_try_def image_finish_def sample_libs_def
      sample_image_def scan_sample_tags pillow_exif_to_bytes_def is_OSError_def
      del: scan_tags.simps)

section \<open>The text processor never replaces\<close>

lemma find_candidates_parse:
  "find_candidates ws = Inr ts \<Longrightarrow> \<forall>t \<in> set ts. \<exists>d. strptime (Str t) ''%Y-%m-%d'' = Inr d"
proof (induction ws arbitrary: ts)
  case Nil
  then show ?case by simp
next
  case (Cons w ws)
  show ?case
  proof (cases "strptime (Str w) ''%Y-%m-%d''")
    case (Inl e)
    with Cons.prems have "find_candidates ws = Inr ts" by (simp split: if_splits)
    then show ?thesis by (rule Cons.IH)
  next
    case (Inr d)
    with Cons.prems obtain ts' where r: "find_candidates ws = Inr ts'" and t: "ts = w # ts'"
      by (auto split: sum.splits)
    from Cons.IH[OF r] Inr t show ?thesis by auto
  qed
qed

lemma normalize_all_candidates:
  assumes "\<forall>t \<in> set ts. \<exists>d. strptime (Str t) ''%Y-%m-%d'' = Inr d"
  shows "fst (normalize_all db tz ts content replacements) = Inr (content, replacements)"
  using assms
proof (induction ts)
  case Nil
  then show ?case by simp
next
  case (Cons t ts)
  then obtain d where d: "strptime (Str t) ''%Y-%m-%d'' = Inr d" by auto
  from Cons have ih: "fst (normalize_all db tz ts content replacements)
                        = Inr (content, replacements)" by simp
  show ?case
    by (simp add: candidate_not_normalized[OF d] if_truthy_def split_beta ih)
qed

lemma process_text_file_never_writes:
  "fst (process_text_file L files p tz dry_run verbose) = files \<and>
   writes (snd (process_text_file L files p tz dry_run verbose)) = []"
proof -
  have na: "writes (snd (normalize_all (zones L) tz ts content [])) = []" for ts content
    by (rule normalize_all_no_writes)
  have nc: "find_candidates ws = Inr ts \<Longrightarrow>
            fst (normalize_all (zones L) tz ts content []) = Inr (content, [])" for ws ts content
    using find_candidates_parse normalize_all_candidates by blast
  show ?thesis
  proof (cases "files p")
    case None
    then show ?thesis by (simp add: process_text_file_def text_try_def)
  next
    case (Some raw)
    show ?thesis
    proof (cases "decode L (detect L raw) raw")
      case (Inl e)
      with Some show ?thesis by (simp add: process_text_file_def text_try_def)
    next
      case (Inr content)
      show ?thesis
      proof (cases "find_candidates (concat (map str_split (str_splitlines content)))")
        case (Inl e)
        with Some Inr show ?thesis by (simp add: process_text_file_def text_try_def)
      next
        case cands: (Inr ts)
        obtain r evs where n: "normalize_all (zones L) tz ts content [] = (r, evs)"
          by (cases "normalize_all (zones L) tz ts content []")
        from nc[OF cands, of content] n have r: "r = Inr (content, [])" by simp
        from na[of ts content] n have w: "writes evs = []" by simp
        from Some Inr cands n r w show ?thesis
          by (simp add: process_text_file_def text_try_def text_finish_def writes_append)
      qed
    qed
  qed
qed

text \<open>
  Claim C2, at a file whose content has the candidate \<^verbatim>\<open>2023-06-15\<close> twice, without the
  dry-run flag: both tokens are found, neither parses under any of the five formats
  (all of which want a time of day), nothing is replaced and nothing is written.
\<close>

theorem text_candidates_not_replaced:
  "process_text_file sample_libs [''log.txt'' \<mapsto> ''start 2023-06-15 end 2023-06-15'']
     ''log.txt'' ''UTC'' False False
   = ([''log.txt'' \<mapsto> ''start 2023-06-15 end 2023-06-15''],
      [Log ERROR (CouldNotParse (Str ''2023-06-15'')),
       Log ERROR (CouldNotParse (Str ''2023-06-15'')),
       Log INFO (NoTimestamps ''log.txt'')])"
proof -
  have d: "strptime (Str ''2023-06-15'') ''%Y-%m-%d''
             = Inr \<lparr>year = 2023, month = 6, day = 15, hour = 0, minute = 0, second = 0\<rparr>"
    by (simp add: parse_defs)
  have n: "strptime (Str ''start'') ''%Y-%m-%d'' = Inl ValueError"
      "strptime (Str ''end'') ''%Y-%m-%d'' = Inl ValueError"
    by (simp_all add: parse_defs)
  have w: "concat (map str_split (str_splitlines ''start 2023-06-15 end 2023-06-15''))
             = [''start'', ''2023-06-15'', ''end'', ''2023-06-15'']"
    by (simp add: str_splitlines_def str_split_def linebreaks_def isspace_def whitespace_def)
  show ?thesis
    by (simp add: process_text_file_def text_try_def text_finish_def sample_libs_def w d n
        is_ValueError_def candidate_not_normalized[OF d] if_truthy_def)
qed

end
